theory Spec2Isabelle
  imports Complex_Main "HOL-Library.AList"
begin

section \<open>Numbers and configuration lookups\<close>

text \<open>
  The quote engine computes with Python floats. They are modelled as \<^typ>\<open>real\<close>:
  exact arithmetic, without the rounding error of IEEE doubles. Concrete inputs used
  below are chosen so that the double computation gives the same printed result.

  A configuration dictionary with optional keys is a record of \<^typ>\<open>'a option\<close>
  fields (\<open>None\<close>: the key is absent). \<open>d.get(k, dflt)\<close> is \<open>get_or\<close>, and the
  Python idiom \<open>x or dflt\<close> on numbers is \<open>or_else\<close> (zero is falsy).
\<close>

definition get_or :: "'a option \<Rightarrow> 'a \<Rightarrow> 'a" where
  "get_or v dflt = (case v of None \<Rightarrow> dflt | Some x \<Rightarrow> x)"

definition or_else :: "real \<Rightarrow> real \<Rightarrow> real" where
  "or_else x dflt = (if x = 0 then dflt else x)"

text \<open>\<open>int(x)\<close> truncates towards zero.\<close>

definition py_int :: "real \<Rightarrow> int" where
  "py_int x = (if 0 \<le> x then \<lfloor>x\<rfloor> else \<lceil>x\<rceil>)"

text \<open>\<open>round(x, 2)\<close>: the nearest multiple of 0.01, a tie going to the even one.\<close>

definition round_half_even :: "real \<Rightarrow> int" where
  "round_half_even x =
     (let f = \<lfloor>x\<rfloor>; d = x - of_int f
      in if d < 1 / 2 then f else if 1 / 2 < d then f + 1 else if even f then f else f + 1)"

definition round2 :: "real \<Rightarrow> real" where
  "round2 x = of_int (round_half_even (x * 100)) / 100"


definition is_cents :: "real \<Rightarrow> bool" where
  "is_cents x = (x * 100 = of_int \<lfloor>x * 100\<rfloor>)"

record rates_cfg =
  taxes_gst :: "real option"
  defaults_install_hours :: "real option"
  install_team_two_person_fraction :: "real option"
  install_team_one_person_fraction :: "real option"
  install_team_two_person_rate :: "real option"
  install_team_one_person_rate :: "real option"
  labor_rates_installer_billed :: "real option"
  install_base_minutes_per_m2 :: "real option"
  install_min_minutes_per_product :: "real option"
  edgeband_minutes_per_edge :: "real option"
  delivery_truck_capacity_cbm :: "real option"

text \<open>The empty dictionaries: every key absent, so every default of the code applies.\<close>

definition no_rates :: rates_cfg where
  "no_rates =
     \<lparr>taxes_gst = None, defaults_install_hours = None,
      install_team_two_person_fraction = None, install_team_one_person_fraction = None,
      install_team_two_person_rate = None, install_team_one_person_rate = None,
      labor_rates_installer_billed = None, install_base_minutes_per_m2 = None,
      install_min_minutes_per_product = None, edgeband_minutes_per_edge = None,
      delivery_truck_capacity_cbm = None\<rparr>"

record policy_cfg =
  target_margin :: "real option"
  rounding :: "real option"
  allowances_flat_aud_ex_gst :: "real option"
  surcharges_warranty_percent :: "real option"
  surcharges_contingency_percent :: "real option"
  surcharges_merchant_percent :: "real option"

definition no_policy :: policy_cfg where
  "no_policy =
     \<lparr>target_margin = None, rounding = None, allowances_flat_aud_ex_gst = None,
      surcharges_warranty_percent = None, surcharges_contingency_percent = None,
      surcharges_merchant_percent = None\<rparr>"

section \<open>calculators/pricing.py\<close>

record price_summary =
  subtotal_ex_gst :: real
  price_ex_gst :: real
  gst :: real
  total_inc_gst :: real

text \<open>
  \<open>price(totals, rates, policy)\<close>. \<open>totals\<close> is the dictionary of category costs, of
  which only the values are read.
\<close>

definition price :: "(string \<times> real) list \<Rightarrow> rates_cfg \<Rightarrow> policy_cfg \<Rightarrow> price_summary" where
  "price totals rates policy =
     (let ex_gst_subtotal = sum_list (map (\<lambda>(k, v). or_else v 0) totals);
          gm_target = get_or (target_margin policy) (3 / 10);
          gst_rate = get_or (taxes_gst rates) (1 / 10);
          price0 = ex_gst_subtotal / max (1 - gm_target) (1 / 10000);
          gst0 = price0 * gst_rate;
          total0 = price0 + gst0;
          rounding = py_int (get_or (rounding policy) 10);
          price1 = (if 0 < rounding
                    then of_int (\<lfloor>(price0 + of_int rounding / 2) / of_int rounding\<rfloor> * rounding)
                    else price0);
          gst1 = (if 0 < rounding then price1 * gst_rate else gst0);
          total1 = (if 0 < rounding then price1 + gst1 else total0)
      in \<lparr>subtotal_ex_gst = round2 ex_gst_subtotal,
          price_ex_gst = round2 price1,
          gst = round2 gst1,
          total_inc_gst = round2 total1\<rparr>)"







text \<open>The inputs of the specification's example 1, and a policy that switches rounding off.\<close>

definition example_policy :: policy_cfg where
  "example_policy = no_policy\<lparr>target_margin := Some (3 / 10), rounding := Some 10\<rparr>"

definition example_rates :: rates_cfg where
  "example_rates = no_rates\<lparr>taxes_gst := Some (1 / 10)\<rparr>"


section \<open>Text\<close>

text \<open>
  A Python string is a list of characters, each a code point below 256 (Latin-1).
  \<open>str.lower()\<close> maps A..Z and the accented capitals to their small letters and leaves
  every other such character alone.
\<close>

definition lower_char :: "char \<Rightarrow> char" where
  "lower_char c =
     (let n = (of_char c :: nat)
      in if (65 \<le> n \<and> n \<le> 90) \<or> (192 \<le> n \<and> n \<le> 222 \<and> n \<noteq> 215)
         then char_of (n + 32) else c)"

definition lower :: "string \<Rightarrow> string" where
  "lower s = map lower_char s"

fun starts_with :: "string \<Rightarrow> string \<Rightarrow> bool" where
  "starts_with [] s = True"
| "starts_with (p # ps) [] = False"
| "starts_with (p # ps) (c # cs) = (p = c \<and> starts_with ps cs)"

text \<open>\<open>contains sub s\<close> is Python's \<open>sub in s\<close>.\<close>

fun contains :: "string \<Rightarrow> string \<Rightarrow> bool" where
  "contains sub [] = (sub = [])"
| "contains sub (c # cs) = (starts_with sub (c # cs) \<or> contains sub cs)"

definition is_digit :: "char \<Rightarrow> bool" where
  "is_digit c = (let n = (of_char c :: nat) in 48 \<le> n \<and> n \<le> 57)"

definition is_space :: "char \<Rightarrow> bool" where
  "is_space c =
     (let n = (of_char c :: nat)
      in (9 \<le> n \<and> n \<le> 13) \<or> (28 \<le> n \<and> n \<le> 32) \<or> n = 133 \<or> n = 160)"

definition int_of_digits :: "string \<Rightarrow> nat" where
  "int_of_digits ds = foldl (\<lambda>a c. 10 * a + (of_char c - 48)) 0 ds"

text \<open>
  \<open>re.search(r"(\d+)\s*KW", d)\<close> for a keyword that starts with a letter: the leftmost
  position where a run of digits, then white space, then the keyword stands. The result
  is group 1 as a number. Both \<open>\d+\<close> and \<open>\s*\<close> are greedy, and giving back a digit or
  a space cannot make the keyword match, so only the longest runs are tried.
\<close>

fun re_search_count :: "string \<Rightarrow> string \<Rightarrow> nat option" where
  "re_search_count kw [] = None"
| "re_search_count kw (c # cs) =
     (if is_digit c \<and> starts_with kw (dropWhile is_space (dropWhile is_digit (c # cs)))
      then Some (int_of_digits (takeWhile is_digit (c # cs)))
      else re_search_count kw cs)"

section \<open>logic/hardware_counts.py\<close>

record hw_line =
  hw_description :: string
  hw_qty :: int

record hw_counts =
  drawer_kits :: int
  inner_drawers :: int
  hinges :: int
  adj_feet :: int
  bins :: int
  liftup :: int

text \<open>One round of the loop of \<open>classify_hardware\<close>; each \<open>continue\<close> ends the round.\<close>

definition classify_line :: "hw_counts \<Rightarrow> hw_line \<Rightarrow> hw_counts" where
  "classify_line totals h =
     (let desc = lower (hw_description h); qty = hw_qty h
      in if contains ''adj leg'' desc \<or> contains ''adj feet'' desc
            \<or> contains ''adjustable leg'' desc \<or> contains ''adjustable feet'' desc
         then totals\<lparr>adj_feet := adj_feet totals + qty\<rparr>
         else if contains ''drawer support'' desc then totals
         else if contains ''drawer kit'' desc
                 \<or> (contains ''inner drawer'' desc \<and> contains ''kit'' desc)
         then (if contains ''inner'' desc
               then totals\<lparr>inner_drawers := inner_drawers totals + qty\<rparr>
               else totals\<lparr>drawer_kits := drawer_kits totals + qty\<rparr>)
         else if contains ''hinge'' desc then totals\<lparr>hinges := hinges totals + qty\<rparr>
         else if contains ''bin'' desc then totals\<lparr>bins := bins totals + qty\<rparr>
         else if contains ''aventos'' desc \<or> contains ''liftup'' desc
                 \<or> contains ''lift-up'' desc \<or> contains ''lift mechanism'' desc
         then totals\<lparr>liftup := liftup totals + qty\<rparr>
         else totals)"

definition no_hardware :: hw_counts where
  "no_hardware =
     \<lparr>drawer_kits = 0, inner_drawers = 0, hinges = 0, adj_feet = 0, bins = 0, liftup = 0\<rparr>"

definition classify_hardware :: "hw_line list \<Rightarrow> hw_counts" where
  "classify_hardware hardware_list = foldl classify_line no_hardware hardware_list"

text \<open>
  The classifier in the words of the specification: an ordered list of keyword rules,
  each a test on the lower-cased description with the bucket it selects (\<open>None\<close>: the
  line is ignored); the first rule whose test holds decides.
\<close>

datatype bucket = DrawerKits | InnerDrawers | Hinges | AdjFeet | Bins | Liftup

definition spec_rules :: "((string \<Rightarrow> bool) \<times> (string \<Rightarrow> bucket option)) list" where
  "spec_rules =
     [(\<lambda>d. contains ''adj leg'' d \<or> contains ''adj feet'' d
            \<or> contains ''adjustable leg'' d \<or> contains ''adjustable feet'' d,
       \<lambda>d. Some AdjFeet),
      (\<lambda>d. contains ''drawer support'' d, \<lambda>d. None),
      (\<lambda>d. contains ''drawer kit'' d \<or> (contains ''inner drawer'' d \<and> contains ''kit'' d),
       \<lambda>d. if contains ''inner'' d then Some InnerDrawers else Some DrawerKits),
      (\<lambda>d. contains ''hinge'' d, \<lambda>d. Some Hinges),
      (\<lambda>d. contains ''bin'' d, \<lambda>d. Some Bins),
      (\<lambda>d. contains ''aventos'' d \<or> contains ''liftup'' d
            \<or> contains ''lift-up'' d \<or> contains ''lift mechanism'' d,
       \<lambda>d. Some Liftup)]"

fun first_match :: "((string \<Rightarrow> bool) \<times> (string \<Rightarrow> bucket option)) list \<Rightarrow> string \<Rightarrow> bucket option" where
  "first_match [] d = None"
| "first_match ((test, tag) # rules) d = (if test d then tag d else first_match rules d)"

definition spec_bucket :: "hw_line \<Rightarrow> bucket option" where
  "spec_bucket h = first_match spec_rules (lower (hw_description h))"

fun bucket_total :: "bucket \<Rightarrow> hw_counts \<Rightarrow> int" where
  "bucket_total DrawerKits t = drawer_kits t"
| "bucket_total InnerDrawers t = inner_drawers t"
| "bucket_total Hinges t = hinges t"
| "bucket_total AdjFeet t = adj_feet t"
| "bucket_total Bins t = bins t"
| "bucket_total Liftup t = liftup t"

definition line_share :: "bucket \<Rightarrow> hw_line \<Rightarrow> int" where
  "line_share b h = (if spec_bucket h = Some b then hw_qty h else 0)"

text \<open>The hardware line of the specification's example: "Hinge 165\<degree> soft-close", 40 off.\<close>

definition hinge_line :: hw_line where
  "hinge_line = \<lparr>hw_description = ''Hinge 165'' @ [CHR 0xB0] @ '' soft-close'', hw_qty = 40\<rparr>"

section \<open>calculators/assembly.py: inferred counts and scale factors\<close>

record product =
  p_item :: string
  p_room :: string
  p_description :: string
  p_qty :: int
  p_width_mm :: real
  p_height_mm :: real
  p_depth_mm :: real
  p_area_m2 :: real


text \<open>
  The dictionary \<open>counts\<close> of \<open>infer_counts\<close>, and the entry \<open>hinges\<close> that \<open>estimate\<close>
  adds to it for each product.
\<close>

record counts =
  c_drawers :: real
  c_inner_drawers :: real
  c_doors :: real
  c_feet :: real
  c_bins :: real

record product_counts = counts +
  c_hinges :: real

definition infer_counts :: "string \<Rightarrow> real \<Rightarrow> counts" where
  "infer_counts desc depth_mm =
     (let d = lower desc
      in \<lparr>c_drawers = (case re_search_count ''drawer'' d of Some n \<Rightarrow> of_nat n | None \<Rightarrow> 0),
          c_inner_drawers =
            (if contains ''inner drawer'' d
             then (case re_search_count ''inner drawer'' d of Some n \<Rightarrow> of_nat n | None \<Rightarrow> 1)
             else 0),
          c_doors =
            (if contains ''door'' d
             then (case re_search_count ''door'' d of Some n \<Rightarrow> of_nat n | None \<Rightarrow> 1)
             else 0),
          c_feet = (if depth_mm \<noteq> 0 \<and> 500 \<le> depth_mm then 6 else 0),
          c_bins = (if contains ''bin'' d then 1 else 0)\<rparr>)"

text \<open>The counts of one product, as the first loop of \<open>estimate\<close> stores them.\<close>

definition counts_of_product :: "real \<Rightarrow> product \<Rightarrow> product_counts" where
  "counts_of_product hinges_per_door p =
     (let c = infer_counts (p_description p) (or_else (p_depth_mm p) 0)
      in \<lparr>c_drawers = c_drawers c, c_inner_drawers = c_inner_drawers c, c_doors = c_doors c,
          c_feet = c_feet c, c_bins = c_bins c, c_hinges = c_doors c * hinges_per_door\<rparr>)"

record predicted =
  t_drawers :: real
  t_inner_drawers :: real
  t_hinges :: real
  t_feet :: real
  t_bins :: real




record scales =
  s_drawers :: real
  s_inner_drawers :: real
  s_hinges :: real
  s_feet :: real
  s_bins :: real

text \<open>
  One round of the loop over \<open>map_keys\<close>: the factor starts at 1.0 and is replaced by
  \<open>actual / predicted\<close> under the guard \<open>actual > 0 and predicted > 0\<close>.
\<close>

definition scale_factor :: "int \<Rightarrow> real \<Rightarrow> real" where
  "scale_factor hw_total predicted_total =
     (let actual = or_else (of_int hw_total) 0; predicted = or_else predicted_total 0
      in if 0 < actual \<and> 0 < predicted then actual / predicted else 1)"

text \<open>
  The scale factors of \<open>estimate\<close>. \<open>classify_hardware\<close> always returns its six keys, so
  the test \<open>if hw_totals\<close> holds and the loop over \<open>map_keys\<close> runs: \<open>drawers\<close> is paired
  with \<open>drawer_kits\<close>, \<open>feet\<close> with \<open>adj_feet\<close>, the others with their namesakes.
\<close>

definition compute_scales :: "hw_counts \<Rightarrow> predicted \<Rightarrow> scales" where
  "compute_scales hw_totals predicted_tot =
     \<lparr>s_drawers = scale_factor (drawer_kits hw_totals) (t_drawers predicted_tot),
      s_inner_drawers = scale_factor (inner_drawers hw_totals) (t_inner_drawers predicted_tot),
      s_hinges = scale_factor (hinges hw_totals) (t_hinges predicted_tot),
      s_feet = scale_factor (adj_feet hw_totals) (t_feet predicted_tot),
      s_bins = scale_factor (bins hw_totals) (t_bins predicted_tot)\<rparr>"

section \<open>calculators/install.py\<close>























section \<open>calculators/edgeband.py: the parts-based time model\<close>









section \<open>web/app.py: delivery trips\<close>










section \<open>output/exporters/html.py: the displayed category breakdown\<close>

text \<open>
  The keys of \<open>category_totals\<close> that \<open>render_client_quote\<close> reads; a key may be absent.
\<close>

record category_totals =
  ct_materials :: "real option"
  ct_edgeband :: "real option"
  ct_hardware :: "real option"
  ct_cnc :: "real option"
  ct_panel_saw :: "real option"
  ct_assembly :: "real option"
  ct_install :: "real option"
  ct_overhead :: "real option"
  ct_allowances :: "real option"
  ct_surcharges :: "real option"

text \<open>
  What the template receives: \<open>category_display\<close> in the order of \<open>cat_order\<close>, then
  \<open>allowances_display\<close>, \<open>surcharge_display\<close> and \<open>subtotal_display\<close>.
\<close>

record display =
  d_materials :: real
  d_edgeband :: real
  d_hardware :: real
  d_cnc :: real
  d_panel_saw :: real
  d_assembly :: real
  d_install :: real
  d_overhead :: real
  allowances_display :: real
  surcharge_display :: real
  subtotal_display :: real

text \<open>\<open>sum(category_display.values())\<close>\<close>

definition sum_category_display :: "display \<Rightarrow> real" where
  "sum_category_display d =
     d_materials d + d_edgeband d + d_hardware d + d_cnc d + d_panel_saw d + d_assembly d
     + d_install d + d_overhead d"

text \<open>The margin-scaled display, before it is aligned with the price.\<close>

definition scaled_display :: "policy_cfg \<Rightarrow> category_totals \<Rightarrow> display" where
  "scaled_display policy category_totals =
     (let cat = (\<lambda>v. or_else (get_or v 0) 0);
          allowances_flat0 = or_else (get_or (allowances_flat_aud_ex_gst policy) 0) 0;
          surcharge_pct = or_else (get_or (surcharges_warranty_percent policy) 0) 0
                        + or_else (get_or (surcharges_contingency_percent policy) 0) 0
                        + or_else (get_or (surcharges_merchant_percent policy) 0) 0;
          subtotal_for_surcharges =
            cat (ct_materials category_totals) + cat (ct_edgeband category_totals)
            + cat (ct_hardware category_totals) + cat (ct_cnc category_totals)
            + cat (ct_panel_saw category_totals) + cat (ct_assembly category_totals)
            + cat (ct_install category_totals) + cat (ct_overhead category_totals)
            + allowances_flat0;
          surcharge_total0 =
            (if surcharge_pct \<noteq> 0 then subtotal_for_surcharges * (surcharge_pct / 100) else 0);
          m_target = or_else (get_or (target_margin policy) (3 / 10)) (3 / 10);
          factor = 1 / max (1 - m_target) (1 / 10000);
          allowances_flat =
            (case ct_allowances category_totals of None \<Rightarrow> allowances_flat0
             | Some a \<Rightarrow> or_else a 0);
          surcharge_total =
            (case ct_surcharges category_totals of None \<Rightarrow> surcharge_total0
             | Some s \<Rightarrow> or_else s 0);
          d0 = \<lparr>d_materials = round2 (cat (ct_materials category_totals) * factor),
                d_edgeband = round2 (cat (ct_edgeband category_totals) * factor),
                d_hardware = round2 (cat (ct_hardware category_totals) * factor),
                d_cnc = round2 (cat (ct_cnc category_totals) * factor),
                d_panel_saw = round2 (cat (ct_panel_saw category_totals) * factor),
                d_assembly = round2 (cat (ct_assembly category_totals) * factor),
                d_install = round2 (cat (ct_install category_totals) * factor),
                d_overhead = round2 (cat (ct_overhead category_totals) * factor),
                allowances_display = round2 (or_else allowances_flat 0 * factor),
                surcharge_display = round2 (or_else surcharge_total 0 * factor),
                subtotal_display = 0\<rparr>
      in d0\<lparr>subtotal_display := round2 (sum_category_display d0 + allowances_display d0)\<rparr>)"

text \<open>
  The last lines of the computation: the difference between the final price and the
  displayed sum goes to \<open>install\<close>, and the displayed subtotal is taken again.
\<close>

definition category_display :: "policy_cfg \<Rightarrow> category_totals \<Rightarrow> price_summary \<Rightarrow> display" where
  "category_display policy category_totals price_summary =
     (let d = scaled_display policy category_totals;
          price_sum_no_round = subtotal_display d + surcharge_display d;
          price_final = or_else (price_ex_gst price_summary) 0;
          delta = round2 (price_final - price_sum_no_round);
          d1 = d\<lparr>d_install := round2 (d_install d + delta)\<rparr>
      in d1\<lparr>subtotal_display := round2 (sum_category_display d1 + allowances_display d1)\<rparr>)"

text \<open>The residual that is added to \<open>install\<close>.\<close>

definition display_delta :: "policy_cfg \<Rightarrow> category_totals \<Rightarrow> price_summary \<Rightarrow> real" where
  "display_delta policy category_totals price_summary =
     round2 (or_else (price_ex_gst price_summary) 0
             - (subtotal_display (scaled_display policy category_totals)
                + surcharge_display (scaled_display policy category_totals)))"

text \<open>The displayed breakdown: the categories, the allowances and the surcharges.\<close>

definition displayed_total :: "display \<Rightarrow> real" where
  "displayed_total d = sum_category_display d + allowances_display d + surcharge_display d"

text \<open>Category costs and a policy for a worked instance.\<close>

definition example_category_totals :: category_totals where
  "example_category_totals =
     \<lparr>ct_materials = Some 400, ct_edgeband = Some 50, ct_hardware = Some 150, ct_cnc = Some 100,
      ct_panel_saw = None, ct_assembly = Some 200, ct_install = Some 100, ct_overhead = None,
      ct_allowances = None, ct_surcharges = None\<rparr>"

section \<open>web/app.py: the override merge\<close>

text \<open>
  A configuration value is a nested dictionary (its keys in insertion order) or
  anything else: a number, a string, a list. The leaves are of any type \<open>'a\<close>.
\<close>

datatype 'a cfg = Leaf 'a | Dict "(string \<times> 'a cfg) list"

text \<open>
  \<open>_deep_update(dst, src)\<close> changes \<open>dst\<close> in place; the model returns the new \<open>dst\<close>.
  \<open>dst[k] = v\<close> is \<^const>\<open>AList.update\<close>: an existing key keeps its place, a new one
  goes to the end.
\<close>

function deep_update ::
  "(string \<times> 'a cfg) list \<Rightarrow> (string \<times> 'a cfg) list \<Rightarrow> (string \<times> 'a cfg) list" where
  "deep_update dst [] = dst"
| "deep_update dst ((k, v) # src) =
     deep_update
       (case (v, map_of dst k) of
          (Dict sv, Some (Dict dv)) \<Rightarrow> AList.update k (Dict (deep_update dv sv)) dst
        | _ \<Rightarrow> AList.update k v dst)
       src"
  by pat_completeness auto
termination
  by (relation "measure (\<lambda>(dst, src). size_list (size_prod (\<lambda>k. 0) size) src)") auto

text \<open>A Python dictionary has each key once, at every level.\<close>

fun wf_cfg :: "'a cfg \<Rightarrow> bool" where
  "wf_cfg (Leaf x) = True"
| "wf_cfg (Dict kvs) = (distinct (map fst kvs) \<and> (\<forall>p \<in> set kvs. wf_cfg (snd p)))"

definition wf_dict :: "(string \<times> 'a cfg) list \<Rightarrow> bool" where
  "wf_dict kvs = wf_cfg (Dict kvs)"

text \<open>The value that one round of the loop stores under the key \<open>k\<close>.\<close>

definition merged_value :: "(string \<times> 'a cfg) list \<Rightarrow> string \<Rightarrow> 'a cfg \<Rightarrow> 'a cfg" where
  "merged_value dst k v =
     (case (v, map_of dst k) of
        (Dict sv, Some (Dict dv)) \<Rightarrow> Dict (deep_update dv sv)
      | _ \<Rightarrow> v)"

text \<open>A base configuration and an override document for a worked instance.\<close>

definition base_rates_doc :: "(string \<times> real cfg) list" where
  "base_rates_doc =
     [(''taxes'', Dict [(''gst'', Leaf (1 / 10))]),
      (''install_team'', Dict [(''two_person_rate'', Leaf 190), (''one_person_rate'', Leaf 95)]),
      (''defaults'', Leaf 0)]"

definition override_doc :: "(string \<times> real cfg) list" where
  "override_doc =
     [(''install_team'', Dict [(''one_person_rate'', Leaf 100), (''two_person_fraction'', Leaf 1)]),
      (''defaults'', Dict [(''install_hours'', Leaf 40)]),
      (''delivery'', Dict [(''truck_capacity_cbm'', Leaf 20)])]"

section \<open>Rounding to cents\<close>

lemma round_half_even_of_int: "round_half_even (of_int n) = n"
  by (simp add: round_half_even_def)


lemma round_half_even_near: "\<bar>of_int (round_half_even x) - x\<bar> \<le> 1 / 2"
proof -
  define f where "f = \<lfloor>x\<rfloor>"
  have a: "of_int f \<le> x" "x < of_int f + 1"
    unfolding f_def by linarith+
  have "\<bar>of_int (if x - of_int f < 1 / 2 then f else if 1 / 2 < x - of_int f then f + 1
          else if even f then f else f + 1) - x\<bar> \<le> 1 / 2"
    using a by (cases "x - of_int f < 1 / 2"; cases "1 / 2 < x - of_int f"; cases "even f") simp_all
  then show ?thesis
    by (simp add: round_half_even_def Let_def f_def)
qed

lemma is_cents_round2: "is_cents (round2 x)"
  by (simp add: is_cents_def round2_def)

lemma round2_cents: "is_cents x \<Longrightarrow> round2 x = x"
proof -
  assume "is_cents x"
  then have "x * 100 = of_int \<lfloor>x * 100\<rfloor>" by (simp add: is_cents_def)
  then have "round_half_even (x * 100) = \<lfloor>x * 100\<rfloor>"
    by (metis round_half_even_of_int)
  then show ?thesis
    using \<open>x * 100 = of_int \<lfloor>x * 100\<rfloor>\<close> by (simp add: round2_def)
qed

lemma is_cents_of_int: "is_cents (of_int n)"
  by (simp add: is_cents_def)


lemma is_cents_add: "is_cents x \<Longrightarrow> is_cents y \<Longrightarrow> is_cents (x + y)"
proof -
  assume "is_cents x" "is_cents y"
  then have "(x + y) * 100 = of_int (\<lfloor>x * 100\<rfloor> + \<lfloor>y * 100\<rfloor>)"
    by (simp add: is_cents_def algebra_simps)
  then show ?thesis
    unfolding is_cents_def by (metis floor_of_int)
qed

lemma is_cents_diff: "is_cents x \<Longrightarrow> is_cents y \<Longrightarrow> is_cents (x - y)"
proof -
  assume "is_cents x" "is_cents y"
  then have "(x - y) * 100 = of_int (\<lfloor>x * 100\<rfloor> - \<lfloor>y * 100\<rfloor>)"
    by (simp add: is_cents_def algebra_simps)
  then show ?thesis
    unfolding is_cents_def by (metis floor_of_int)
qed

lemma round2_near: "\<bar>round2 x - x\<bar> \<le> 1 / 200"
proof -
  have "\<bar>of_int (round_half_even (x * 100)) - x * 100\<bar> \<le> 1 / 2"
    by (rule round_half_even_near)
  then show ?thesis
    by (simp add: round2_def abs_if field_simps split: if_splits)
qed


section \<open>Hardware classification\<close>

lemma classify_line_share:
  "bucket_total b (classify_line totals h) = bucket_total b totals + line_share b h"
  by (cases b)
    (simp_all add: classify_line_def line_share_def spec_bucket_def spec_rules_def Let_def)

lemma foldl_classify_line:
  "bucket_total b (foldl classify_line totals hs) =
     bucket_total b totals + sum_list (map (line_share b) hs)"
  by (induction hs arbitrary: totals) (simp_all add: classify_line_share)

lemma bucket_total_no_hardware: "bucket_total b no_hardware = 0"
  by (cases b) (simp_all add: no_hardware_def)

text \<open>
  C5. For every list of hardware lines and every bucket, the total that
  \<open>classify_hardware\<close> returns for the bucket is the sum of the quantities of the lines
  whose first matching keyword rule, in the fixed priority order, selects that bucket.
  A line has one first match at most, so its quantity goes to one bucket or to none,
  and a line that no rule matches (or that the "drawer support" rule matches) adds
  nothing. The line "Hinge 165\<degree> soft-close" with quantity 40 gives 40 hinges and
  nothing else.
\<close>

theorem classify_hardware_first_match:
  "bucket_total b (classify_hardware hs) = sum_list (map (line_share b) hs)
   \<and> spec_bucket hinge_line = Some Hinges
   \<and> classify_hardware [hinge_line] = no_hardware\<lparr>hinges := 40\<rparr>"
proof -
  have "bucket_total b (classify_hardware hs) = sum_list (map (line_share b) hs)"
    by (simp add: classify_hardware_def foldl_classify_line bucket_total_no_hardware)
  moreover have "spec_bucket hinge_line = Some Hinges"
    by code_simp
  moreover have "classify_hardware [hinge_line] = no_hardware\<lparr>hinges := 40\<rparr>"
    by code_simp
  ultimately show ?thesis
    by blast
qed

section \<open>Pricing\<close>

lemma or_else_zero: "or_else v 0 = v"
  by (simp add: or_else_def)




lemma example_price:
  "price [(''materials'', 1000)] example_rates example_policy =
     \<lparr>subtotal_ex_gst = 1000, price_ex_gst = 1430, gst = 143, total_inc_gst = 1573\<rparr>"
  by code_simp







section \<open>Inferred counts and scale factors\<close>

lemma scale_factor_eq:
  "scale_factor a p = (if 0 < a \<and> 0 < p then of_int a / p else 1)"
  by (simp add: scale_factor_def or_else_def Let_def)

text \<open>
  C4. For every pair of classified and predicted totals, each of the five scale factors
  is \<open>classified / predicted\<close> when both totals of its pair are strictly positive and
  1 otherwise (so it is 1 when the predicted total is 0, whatever the classified total),
  and each factor is strictly positive.
\<close>

theorem scale_factors_guarded:
  "s_drawers (compute_scales hw pr) =
      (if 0 < drawer_kits hw \<and> 0 < t_drawers pr
       then of_int (drawer_kits hw) / t_drawers pr else 1)
   \<and> s_inner_drawers (compute_scales hw pr) =
      (if 0 < inner_drawers hw \<and> 0 < t_inner_drawers pr
       then of_int (inner_drawers hw) / t_inner_drawers pr else 1)
   \<and> s_hinges (compute_scales hw pr) =
      (if 0 < hinges hw \<and> 0 < t_hinges pr then of_int (hinges hw) / t_hinges pr else 1)
   \<and> s_feet (compute_scales hw pr) =
      (if 0 < adj_feet hw \<and> 0 < t_feet pr then of_int (adj_feet hw) / t_feet pr else 1)
   \<and> s_bins (compute_scales hw pr) =
      (if 0 < bins hw \<and> 0 < t_bins pr then of_int (bins hw) / t_bins pr else 1)
   \<and> 0 < s_drawers (compute_scales hw pr) \<and> 0 < s_inner_drawers (compute_scales hw pr)
   \<and> 0 < s_hinges (compute_scales hw pr) \<and> 0 < s_feet (compute_scales hw pr)
   \<and> 0 < s_bins (compute_scales hw pr)"
  by (simp add: compute_scales_def scale_factor_eq)

text \<open>
  C6. For every description and depth the inferrer sets \<open>feet\<close> to 6 when the depth is
  at least 500 mm and to 0 otherwise, also on the depth that \<open>estimate\<close> reads from a
  product; for "Base 2 Drawer Unit" at depth 600 it infers 2 drawers, no door (the
  letters of "door" do not occur in "drawer") and 6 feet.
\<close>

theorem infer_counts_feet:
  "c_feet (infer_counts desc depth_mm) = (if 500 \<le> depth_mm then 6 else 0)
   \<and> c_feet (counts_of_product hpd p) = (if 500 \<le> p_depth_mm p then 6 else 0)
   \<and> infer_counts ''Base 2 Drawer Unit'' 600 =
       \<lparr>c_drawers = 2, c_inner_drawers = 0, c_doors = 0, c_feet = 6, c_bins = 0\<rparr>"
proof -
  have a: "c_feet (infer_counts d x) = (if 500 \<le> x then 6 else 0)" for d x
    by (auto simp: infer_counts_def Let_def)
  have "c_feet (counts_of_product hpd p) = (if 500 \<le> p_depth_mm p then 6 else 0)"
    by (simp add: counts_of_product_def Let_def a or_else_zero)
  moreover have "infer_counts ''Base 2 Drawer Unit'' 600 =
       \<lparr>c_drawers = 2, c_inner_drawers = 0, c_doors = 0, c_feet = 6, c_bins = 0\<rparr>"
    by code_simp
  ultimately show ?thesis
    using a by blast
qed

section \<open>Installation\<close>








section \<open>The displayed breakdown\<close>

lemma scaled_display_cents:
  "is_cents (d_materials (scaled_display policy ct))"
  "is_cents (d_edgeband (scaled_display policy ct))"
  "is_cents (d_hardware (scaled_display policy ct))"
  "is_cents (d_cnc (scaled_display policy ct))"
  "is_cents (d_panel_saw (scaled_display policy ct))"
  "is_cents (d_assembly (scaled_display policy ct))"
  "is_cents (d_install (scaled_display policy ct))"
  "is_cents (d_overhead (scaled_display policy ct))"
  "is_cents (allowances_display (scaled_display policy ct))"
  "is_cents (surcharge_display (scaled_display policy ct))"
  by (simp_all add: scaled_display_def Let_def is_cents_round2)

lemma sum_category_display_cents:
  "is_cents (sum_category_display (scaled_display policy ct))"
  unfolding sum_category_display_def
  by (intro is_cents_add scaled_display_cents)

lemma subtotal_scaled_display:
  "subtotal_display (scaled_display policy ct) =
     sum_category_display (scaled_display policy ct) + allowances_display (scaled_display policy ct)"
proof -
  have "is_cents (sum_category_display (scaled_display policy ct) + allowances_display (scaled_display policy ct))"
    by (intro is_cents_add sum_category_display_cents scaled_display_cents)
  then have "round2 (sum_category_display (scaled_display policy ct) + allowances_display (scaled_display policy ct))
     = sum_category_display (scaled_display policy ct) + allowances_display (scaled_display policy ct)"
    by (rule round2_cents)
  moreover have "subtotal_display (scaled_display policy ct) =
     round2 (sum_category_display (scaled_display policy ct) + allowances_display (scaled_display policy ct))"
    by (simp add: scaled_display_def Let_def sum_category_display_def)
  ultimately show ?thesis by simp
qed

lemma display_delta_eq:
  "display_delta policy ct pr = round2 (price_ex_gst pr - displayed_total (scaled_display policy ct))"
  by (simp add: display_delta_def displayed_total_def subtotal_scaled_display or_else_def)

lemma category_display_install:
  "d_install (category_display policy ct pr) = d_install (scaled_display policy ct) + display_delta policy ct pr"
proof -
  have "is_cents (d_install (scaled_display policy ct) + display_delta policy ct pr)"
    by (intro is_cents_add scaled_display_cents) (simp add: display_delta_def is_cents_round2)
  then have "round2 (d_install (scaled_display policy ct) + display_delta policy ct pr)
      = d_install (scaled_display policy ct) + display_delta policy ct pr"
    by (rule round2_cents)
  then show ?thesis
    by (simp add: category_display_def Let_def display_delta_def)
qed

lemma category_display_others:
  "d_materials (category_display policy ct pr) = d_materials (scaled_display policy ct)"
  "d_edgeband (category_display policy ct pr) = d_edgeband (scaled_display policy ct)"
  "d_hardware (category_display policy ct pr) = d_hardware (scaled_display policy ct)"
  "d_cnc (category_display policy ct pr) = d_cnc (scaled_display policy ct)"
  "d_panel_saw (category_display policy ct pr) = d_panel_saw (scaled_display policy ct)"
  "d_assembly (category_display policy ct pr) = d_assembly (scaled_display policy ct)"
  "d_overhead (category_display policy ct pr) = d_overhead (scaled_display policy ct)"
  "allowances_display (category_display policy ct pr) = allowances_display (scaled_display policy ct)"
  "surcharge_display (category_display policy ct pr) = surcharge_display (scaled_display policy ct)"
  by (simp_all add: category_display_def Let_def)

lemma displayed_total_category_display:
  "displayed_total (category_display policy ct pr) =
     displayed_total (scaled_display policy ct) + display_delta policy ct pr"
  by (simp add: displayed_total_def sum_category_display_def category_display_install category_display_others)

lemma displayed_total_cents: "is_cents (displayed_total (scaled_display policy ct))"
  unfolding displayed_total_def
  by (intro is_cents_add sum_category_display_cents scaled_display_cents)

lemma displayed_total_exact:
  assumes "is_cents (price_ex_gst pr)"
  shows "displayed_total (category_display policy ct pr) = price_ex_gst pr"
proof -
  have "is_cents (price_ex_gst pr - displayed_total (scaled_display policy ct))"
    by (intro is_cents_diff assms displayed_total_cents)
  then have "display_delta policy ct pr = price_ex_gst pr - displayed_total (scaled_display policy ct)"
    unfolding display_delta_eq by (rule round2_cents)
  then show ?thesis by (simp add: displayed_total_category_display)
qed

lemma displayed_total_near:
  "\<bar>displayed_total (category_display policy ct pr) - price_ex_gst pr\<bar> \<le> 1 / 200"
proof -
  have e: "displayed_total (category_display policy ct pr) - price_ex_gst pr
     = round2 (price_ex_gst pr - displayed_total (scaled_display policy ct))
       - (price_ex_gst pr - displayed_total (scaled_display policy ct))"
    by (simp add: displayed_total_category_display display_delta_eq)
  show ?thesis
    unfolding e by (rule round2_near)
qed

lemma subtotal_category_display:
  "subtotal_display (category_display policy ct pr) + surcharge_display (category_display policy ct pr)
    = displayed_total (category_display policy ct pr)"
proof -
  let ?d = "category_display policy ct pr"
  have c: "is_cents (sum_category_display ?d + allowances_display ?d)"
    unfolding sum_category_display_def category_display_install category_display_others
    by (intro is_cents_add scaled_display_cents) (simp add: display_delta_def is_cents_round2)
  have "subtotal_display ?d = round2 (sum_category_display ?d + allowances_display ?d)"
    by (simp add: category_display_def Let_def sum_category_display_def)
  with round2_cents [OF c] show ?thesis by (simp add: displayed_total_def)
qed

lemma is_cents_price: "is_cents (price_ex_gst (price totals rates policy))"
  by (simp add: price_def Let_def is_cents_round2)

text \<open>
  C1. For every policy, every dictionary of category totals and every price summary, the
  displayed breakdown (the eight margin-scaled categories, the displayed allowances and
  the displayed surcharges) sums, after the alignment, to \<open>price_ex_gst\<close> within half a
  cent, and exactly when \<open>price_ex_gst\<close> is a whole number of cents, as every price that
  \<open>price\<close> returns is. The residual, the two-decimal rounding of the price minus the sum
  of the scaled display, is added to \<open>install\<close> alone: the other categories, the
  allowances and the surcharges keep their scaled values. The displayed subtotal plus
  the surcharges is the same sum.
\<close>

theorem display_sums_to_price:
  "displayed_total (category_display policy ct (price totals rates policy')) =
     price_ex_gst (price totals rates policy')
   \<and> (is_cents (price_ex_gst pr) \<longrightarrow>
        displayed_total (category_display policy ct pr) = price_ex_gst pr)
   \<and> \<bar>displayed_total (category_display policy ct pr) - price_ex_gst pr\<bar> \<le> 1 / 200
   \<and> d_install (category_display policy ct pr) =
        d_install (scaled_display policy ct) + display_delta policy ct pr
   \<and> display_delta policy ct pr =
        round2 (price_ex_gst pr - displayed_total (scaled_display policy ct))
   \<and> d_materials (category_display policy ct pr) = d_materials (scaled_display policy ct)
   \<and> d_edgeband (category_display policy ct pr) = d_edgeband (scaled_display policy ct)
   \<and> d_hardware (category_display policy ct pr) = d_hardware (scaled_display policy ct)
   \<and> d_cnc (category_display policy ct pr) = d_cnc (scaled_display policy ct)
   \<and> d_panel_saw (category_display policy ct pr) = d_panel_saw (scaled_display policy ct)
   \<and> d_assembly (category_display policy ct pr) = d_assembly (scaled_display policy ct)
   \<and> d_overhead (category_display policy ct pr) = d_overhead (scaled_display policy ct)
   \<and> allowances_display (category_display policy ct pr) =
        allowances_display (scaled_display policy ct)
   \<and> surcharge_display (category_display policy ct pr) =
        surcharge_display (scaled_display policy ct)
   \<and> subtotal_display (category_display policy ct pr)
        + surcharge_display (category_display policy ct pr) =
        displayed_total (category_display policy ct pr)"
  using displayed_total_exact [OF is_cents_price, of policy ct totals rates policy']
    displayed_total_exact [of pr policy ct] displayed_total_near [of policy ct pr]
    category_display_install [of policy ct pr] display_delta_eq [of policy ct pr]
    category_display_others [of policy ct pr] subtotal_category_display [of policy ct pr]
  by blast

theorem display_sums_to_price_witness:
  "is_cents (price_ex_gst (price [(''materials'', 1000)] example_rates example_policy))
   \<and> displayed_total (category_display example_policy example_category_totals
        (price [(''materials'', 1000)] example_rates example_policy)) = 1430
   \<and> displayed_total (scaled_display example_policy example_category_totals) = 142858 / 100
   \<and> d_install (scaled_display example_policy example_category_totals) = 14286 / 100
   \<and> d_install (category_display example_policy example_category_totals
        (price [(''materials'', 1000)] example_rates example_policy)) = 14428 / 100"
proof -
  let ?pr = "price [(''materials'', 1000)] example_rates example_policy"
  let ?d = "category_display example_policy example_category_totals ?pr"
  let ?s = "scaled_display example_policy example_category_totals"
  note T = display_sums_to_price [of example_policy example_category_totals
      "[(''materials'', 1000)]" example_rates example_policy ?pr]
  have p: "price_ex_gst ?pr = 1430"
    by (simp add: example_price)
  have c: "is_cents (price_ex_gst ?pr)"
    using is_cents_of_int [of 1430] by (simp add: p)
  have t: "displayed_total ?s = 142858 / 100"
    by code_simp
  have i: "d_install ?s = 14286 / 100"
    by code_simp
  have r: "round2 (1430 - 142858 / 100) = 142 / 100"
    by code_simp
  have a: "displayed_total ?d = price_ex_gst ?pr"
    using T by blast
  have b: "d_install ?d = d_install ?s + display_delta example_policy example_category_totals ?pr"
    using T by blast
  have d: "display_delta example_policy example_category_totals ?pr =
      round2 (price_ex_gst ?pr - displayed_total ?s)"
    using T by blast
  have "d_install ?d = 14286 / 100 + 142 / 100"
    unfolding b d p t i r by (rule refl)
  then have e: "d_install ?d = 14428 / 100"
    by simp
  from a p have f: "displayed_total ?d = 1430"
    by simp
  from c f t i e show ?thesis
    by blast
qed

section \<open>Delivery\<close>











section \<open>The override merge\<close>

lemma deep_update_Cons:
  "deep_update dst ((k, v) # src) = deep_update (AList.update k (merged_value dst k v) dst) src"
  by (simp add: merged_value_def split: cfg.splits option.splits)

lemma merged_value_cong:
  "map_of d k = map_of d' k \<Longrightarrow> merged_value d k v = merged_value d' k v"
  by (simp add: merged_value_def)

lemma map_of_deep_update:
  "distinct (map fst src) \<Longrightarrow>
     map_of (deep_update dst src) k =
       (case map_of src k of None \<Rightarrow> map_of dst k | Some v \<Rightarrow> Some (merged_value dst k v))"
proof (induction src arbitrary: dst)
  case Nil
  then show ?case by simp
next
  case (Cons p src)
  obtain k0 v0 where p: "p = (k0, v0)" by (cases p)
  let ?d = "AList.update k0 (merged_value dst k0 v0) dst"
  from Cons.prems p have dist: "distinct (map fst src)" and notin: "k0 \<notin> fst ` set src"
    by auto
  have ih: "map_of (deep_update ?d src) k =
       (case map_of src k of None \<Rightarrow> map_of ?d k | Some v \<Rightarrow> Some (merged_value ?d k v))"
    by (rule Cons.IH [OF dist])
  show ?case
  proof (cases "k = k0")
    case True
    with notin have "map_of src k = None"
      by (simp add: map_of_eq_None_iff)
    with ih True p show ?thesis
      by (simp add: deep_update_Cons update_conv' del: deep_update.simps)
  next
    case False
    then have "map_of ?d k = map_of dst k"
      by (simp add: update_conv')
    then have "merged_value ?d k v = merged_value dst k v" for v
      by (rule merged_value_cong)
    with ih False p \<open>map_of ?d k = map_of dst k\<close> show ?thesis
      by (simp add: deep_update_Cons split: option.splits del: deep_update.simps)
  qed
qed

lemma deep_update_fixed:
  "(\<And>k v. (k, v) \<in> set src \<Longrightarrow> map_of d k = Some (merged_value d k v)) \<Longrightarrow> deep_update d src = d"
proof (induction src)
  case Nil
  then show ?case by simp
next
  case (Cons p src)
  obtain k0 v0 where p: "p = (k0, v0)" by (cases p)
  have "AList.update k0 (merged_value d k0 v0) d = d"
    by (rule update_triv) (simp add: Cons.prems p)
  moreover have "deep_update d src = d"
    by (rule Cons.IH) (simp add: Cons.prems)
  ultimately show ?case
    by (simp add: p deep_update_Cons del: deep_update.simps)
qed

lemma deep_update_self_cfg:
  "wf_cfg c \<Longrightarrow> c = Dict s \<Longrightarrow> deep_update s s = s"
proof (induction c arbitrary: s)
  case (Leaf x)
  then show ?case by simp
next
  case (Dict kvs)
  then have s: "s = kvs" and dist: "distinct (map fst s)" and sub: "\<And>p. p \<in> set s \<Longrightarrow> wf_cfg (snd p)"
    by auto
  show ?case
  proof (rule deep_update_fixed)
    fix k v assume kv: "(k, v) \<in> set s"
    with dist have m: "map_of s k = Some v" by simp
    have "merged_value s k v = v"
    proof (cases v)
      case (Leaf x)
      then show ?thesis by (simp add: merged_value_def)
    next
      case (Dict sv)
      have "deep_update sv sv = sv"
        using Dict.IH [of "(k, v)" v sv] kv s sub [OF kv] Dict by simp
      with Dict m show ?thesis by (simp add: merged_value_def)
    qed
    with m show "map_of s k = Some (merged_value s k v)" by simp
  qed
qed

lemma deep_update_self: "wf_dict s \<Longrightarrow> deep_update s s = s"
  by (rule deep_update_self_cfg [of "Dict s"]) (simp_all add: wf_dict_def)

lemma deep_update_idem_cfg:
  "wf_cfg c \<Longrightarrow> c = Dict src \<Longrightarrow> deep_update (deep_update dst src) src = deep_update dst src"
proof (induction c arbitrary: src dst)
  case (Leaf x)
  then show ?case by simp
next
  case (Dict kvs)
  then have s: "src = kvs" and dist: "distinct (map fst src)" and sub: "\<And>p. p \<in> set src \<Longrightarrow> wf_cfg (snd p)"
    by auto
  let ?d = "deep_update dst src"
  show ?case
  proof (rule deep_update_fixed)
    fix k v assume kv: "(k, v) \<in> set src"
    with dist have m: "map_of src k = Some v" by simp
    then have d: "map_of ?d k = Some (merged_value dst k v)"
      by (simp add: map_of_deep_update [OF dist])
    have "merged_value ?d k v = merged_value dst k v"
    proof (cases v)
      case (Leaf x)
      then show ?thesis by (simp add: merged_value_def)
    next
      case v: (Dict sv)
      have wfsv: "wf_cfg (Dict sv)" using sub [OF kv] v by simp
      show ?thesis
      proof (cases "\<exists>dv. map_of dst k = Some (Dict dv)")
        case True
        then obtain dv where dv: "map_of dst k = Some (Dict dv)" by blast
        then have mv: "merged_value dst k v = Dict (deep_update dv sv)"
          by (simp add: merged_value_def v)
        have "deep_update (deep_update dv sv) sv = deep_update dv sv"
          using Dict.IH [of "(k, v)" v sv dv] kv s wfsv v by simp
        with d mv show ?thesis
          by (simp add: merged_value_def v)
      next
        case False
        then have mv: "merged_value dst k v = v"
          by (auto simp: merged_value_def v split: option.splits cfg.splits)
        have "deep_update sv sv = sv"
          by (rule deep_update_self_cfg [OF wfsv refl])
        with d mv show ?thesis
          by (simp add: merged_value_def v)
      qed
    qed
    with d show "map_of ?d k = Some (merged_value ?d k v)" by simp
  qed
qed

text \<open>
  C9. For every base configuration and every override document (a dictionary: each key
  once, at every level), merging the override twice gives the same configuration, with
  the same key order, as merging it once.
\<close>

theorem deep_update_idempotent:
  "wf_dict src \<Longrightarrow> deep_update (deep_update dst src) src = deep_update dst src"
  by (rule deep_update_idem_cfg [of "Dict src"]) (simp_all add: wf_dict_def)

theorem deep_update_idempotent_witness:
  "wf_dict override_doc
   \<and> deep_update base_rates_doc override_doc =
       [(''taxes'', Dict [(''gst'', Leaf (1 / 10))]),
        (''install_team'',
           Dict [(''two_person_rate'', Leaf 190), (''one_person_rate'', Leaf 100),
                 (''two_person_fraction'', Leaf 1)]),
        (''defaults'', Dict [(''install_hours'', Leaf 40)]),
        (''delivery'', Dict [(''truck_capacity_cbm'', Leaf 20)])]
   \<and> deep_update (deep_update base_rates_doc override_doc) override_doc =
       deep_update base_rates_doc override_doc"
proof -
  have w: "wf_dict override_doc"
    by code_simp
  have "deep_update base_rates_doc override_doc =
       [(''taxes'', Dict [(''gst'', Leaf (1 / 10))]),
        (''install_team'',
           Dict [(''two_person_rate'', Leaf 190), (''one_person_rate'', Leaf 100),
                 (''two_person_fraction'', Leaf 1)]),
        (''defaults'', Dict [(''install_hours'', Leaf 40)]),
        (''delivery'', Dict [(''truck_capacity_cbm'', Leaf 20)])]"
    by code_simp
  then show ?thesis
    using deep_update_idempotent [OF w, of base_rates_doc] w by simp
qed

section \<open>Edgeband time from parts\<close>








end
